theory Spec2Isabelle
  imports Complex_Main
begin

section \<open>JavaScript primitives used by the server code\<close>

text \<open>
  \<^verbatim>\<open>String.prototype.toLowerCase\<close>, on the ASCII letters. Addresses are hexadecimal
  strings, so the Unicode part of the JavaScript function is not modelled.
\<close>

definition lower_char :: "char \<Rightarrow> char" where
  "lower_char c =
     (case map_of (zip ''ABCDEFGHIJKLMNOPQRSTUVWXYZ'' ''abcdefghijklmnopqrstuvwxyz'') c of
        Some l \<Rightarrow> l
      | None \<Rightarrow> c)"

definition toLowerCase :: "string \<Rightarrow> string" where
  "toLowerCase s = map lower_char s"

text \<open>
  \<^verbatim>\<open>Array.prototype.slice(start, end)\<close> on integral arguments: a negative index counts
  from the end of the array, and both indices are clamped to the array.
\<close>

definition js_slice :: "'a list \<Rightarrow> int \<Rightarrow> int \<Rightarrow> 'a list" where
  "js_slice xs start fin =
     (let len = int (length xs);
          k = (if start < 0 then max (len + start) 0 else min start len);
          final = (if fin < 0 then max (len + fin) 0 else min fin len)
      in take (nat (final - k)) (drop (nat k) xs))"

text \<open>
  \<^verbatim>\<open>parseInt(s)\<close> with no radix, for a query parameter that is absent (\<open>None\<close>,
  JavaScript's \<^verbatim>\<open>undefined\<close>) or a string. The result \<open>None\<close> is \<^verbatim>\<open>NaN\<close>.
  Leading white space is skipped, then an optional sign, then an optional
  \<^verbatim>\<open>0x\<close> prefix; the longest run of digits of the radix is read, and no digit at all
  gives \<^verbatim>\<open>NaN\<close>. JavaScript rounds a result beyond \<open>2^53\<close> to the nearest double;
  the model keeps the exact integer.
\<close>

definition is_js_space :: "char \<Rightarrow> bool" where
  "is_js_space c = ((of_char c :: nat) \<in> {9, 10, 11, 12, 13, 32})"

definition digit_value :: "char \<Rightarrow> nat option" where
  "digit_value c =
     (let n = (of_char c :: nat) in
      if 48 \<le> n \<and> n \<le> 57 then Some (n - 48)
      else if 97 \<le> n \<and> n \<le> 102 then Some (n - 87)
      else if 65 \<le> n \<and> n \<le> 70 then Some (n - 55)
      else None)"

fun read_digits :: "nat \<Rightarrow> string \<Rightarrow> nat option \<Rightarrow> nat option" where
  "read_digits radix [] acc = acc"
| "read_digits radix (c # cs) acc =
     (case digit_value c of
        None \<Rightarrow> acc
      | Some d \<Rightarrow>
          if d < radix
          then read_digits radix cs (Some ((case acc of None \<Rightarrow> 0 | Some a \<Rightarrow> a) * radix + d))
          else acc)"

definition parseInt :: "string option \<Rightarrow> int option" where
  "parseInt q =
     (case q of
        None \<Rightarrow> None
      | Some s \<Rightarrow>
          (let s1 = dropWhile is_js_space s;
               negative = (case s1 of c # _ \<Rightarrow> c = CHR ''-'' | [] \<Rightarrow> False);
               s2 = (case s1 of c # cs \<Rightarrow> if c = CHR ''-'' \<or> c = CHR ''+'' then cs else s1
                     | [] \<Rightarrow> s1);
               hex = (case s2 of a # b # _ \<Rightarrow> a = CHR ''0'' \<and> (b = CHR ''x'' \<or> b = CHR ''X'')
                      | _ \<Rightarrow> False);
               s3 = (if hex then drop 2 s2 else s2)
           in case read_digits (if hex then 16 else 10) s3 None of
                None \<Rightarrow> None
              | Some n \<Rightarrow> Some (if negative then - int n else int n)))"

text \<open>
  \<^verbatim>\<open>x || d\<close> on a number \<open>x\<close>: \<^verbatim>\<open>NaN\<close> and \<open>0\<close> are falsy, so \<open>d\<close> is taken
  for both.
\<close>

definition or_default :: "int option \<Rightarrow> int \<Rightarrow> int" where
  "or_default x d = (case x of None \<Rightarrow> d | Some n \<Rightarrow> if n = 0 then d else n)"

section \<open>Snapshot service (server/application/services/SnapshotService.ts)\<close>

subsection \<open>Entities\<close>

record TokenMetadata =
  tm_address :: string
  tm_symbol :: string
  tm_name :: string
  tm_decimals :: int
  tm_logoURI :: "string option"

record Token =
  t_symbol :: string
  t_name :: string
  t_address :: string
  t_decimals :: int
  t_logoURI :: "string option"
  t_chainId :: "int option"

record Pool =
  pool_address :: string
  pool_token0 :: Token
  pool_token1 :: Token
  reserve0 :: int
  reserve1 :: int
  pool_feeTier :: "int option"

text \<open>
  JavaScript numbers that hold prices are modelled as reals. The service only stores
  the results of the pricing functions and the literals \<open>1\<close> and \<open>500000\<close> in
  \<open>priceUSD\<close> and \<open>liquidityUSD\<close>; the two derived fields are products.
\<close>

record SnapshotEntry =
  token :: Token
  priceUSD :: real
  liquidityUSD :: real
  volumeUSD :: real
  marketCapUSD :: real

record ChainSnapshot =
  timestamp :: int
  chain :: string
  entries :: "SnapshotEntry list"

text \<open>The adapter interface \<open>IChainAdapter\<close>, as far as the service calls it.\<close>

record IChainAdapter =
  getChainName :: string
  getTopPools :: "int \<Rightarrow> Pool list"
  getStableTokenAddress :: string

text \<open>
  The functions of \<^verbatim>\<open>domain/pricing\<close> are not part of the sources at hand; the
  service is modelled for any pair of them.
\<close>

record Pricing =
  computeSpotPrice :: "Pool \<Rightarrow> string \<Rightarrow> string \<Rightarrow> real"
  computeLiquidityUSD :: "Pool \<Rightarrow> real \<Rightarrow> real \<Rightarrow> real"

record CacheItem =
  ci_timestamp :: int
  ci_entry :: SnapshotEntry

record SnapshotService =
  adapters :: "string \<rightharpoonup> IChainAdapter"
  cache :: "string \<rightharpoonup> CacheItem"
  dynamicTokens :: "string \<rightharpoonup> TokenMetadata list"

datatype snapshot_error = NoAdapter string | InternalError

subsection \<open>The merged token list\<close>

text \<open>
  \<^verbatim>\<open>const seen = new Set(staticMeta.map(t => t.address.toLowerCase()));\<close>
  \<^verbatim>\<open>const allMetadata = [...staticMeta, ...dynamicMeta.filter(t => !seen.has(t.address.toLowerCase()))];\<close>
\<close>

definition allMetadata :: "TokenMetadata list \<Rightarrow> TokenMetadata list \<Rightarrow> TokenMetadata list" where
  "allMetadata staticMeta dynamicMeta =
     (let seen = set (map (\<lambda>t. toLowerCase (tm_address t)) staticMeta)
      in staticMeta @ filter (\<lambda>t. toLowerCase (tm_address t) \<notin> seen) dynamicMeta)"

text \<open>
  The static list of the chain (\<^verbatim>\<open>SUPPORTED_TOKENS[chainKey] || []\<close>, a table of
  \<^verbatim>\<open>shared/tokens\<close> taken as a parameter) merged with the dynamic list of the chain.
\<close>

definition mergedTokens ::
  "(string \<rightharpoonup> TokenMetadata list) \<Rightarrow> SnapshotService \<Rightarrow> string \<Rightarrow> TokenMetadata list" where
  "mergedTokens SUPPORTED_TOKENS svc chainKey =
     allMetadata
       (case SUPPORTED_TOKENS chainKey of None \<Rightarrow> [] | Some ts \<Rightarrow> ts)
       (case dynamicTokens svc chainKey of None \<Rightarrow> [] | Some ts \<Rightarrow> ts)"

definition windowedMetadata ::
  "(string \<rightharpoonup> TokenMetadata list) \<Rightarrow> SnapshotService \<Rightarrow> string \<Rightarrow> int \<Rightarrow> int
     \<Rightarrow> TokenMetadata list" where
  "windowedMetadata SUPPORTED_TOKENS svc chainKey offset limit =
     js_slice (mergedTokens SUPPORTED_TOKENS svc chainKey) offset (offset + limit)"

subsection \<open>\<^verbatim>\<open>SnapshotService.generateSnapshot\<close>\<close>

definition cacheKey :: "string \<Rightarrow> TokenMetadata \<Rightarrow> string" where
  "cacheKey chainKey meta = chainKey @ '':'' @ toLowerCase (tm_address meta)"

text \<open>\<^verbatim>\<open>cached && (now - cached.timestamp < 10000)\<close>: the entry served from the cache, if any.\<close>

definition cachedEntry :: "SnapshotService \<Rightarrow> int \<Rightarrow> string \<Rightarrow> SnapshotEntry option" where
  "cachedEntry svc now key =
     (case cache svc key of
        None \<Rightarrow> None
      | Some cached \<Rightarrow> if now - ci_timestamp cached < 10000 then Some (ci_entry cached) else None)"

text \<open>The predicate of \<^verbatim>\<open>pools.find(p => ...)\<close>.\<close>

definition pool_has_token :: "TokenMetadata \<Rightarrow> Pool \<Rightarrow> bool" where
  "pool_has_token meta p =
     (toLowerCase (t_address (pool_token0 p)) = toLowerCase (tm_address meta)
      \<or> toLowerCase (t_address (pool_token1 p)) = toLowerCase (tm_address meta))"

definition selectPool :: "IChainAdapter \<Rightarrow> TokenMetadata \<Rightarrow> Pool option" where
  "selectPool adapter meta = find (pool_has_token meta) (getTopPools adapter 100)"

text \<open>The body of the \<^verbatim>\<open>map\<close> callback after the cache check: the freshly computed entry.\<close>

definition freshEntry :: "Pricing \<Rightarrow> IChainAdapter \<Rightarrow> TokenMetadata \<Rightarrow> SnapshotEntry" where
  "freshEntry pricing adapter meta =
     (let stableAddress = getStableTokenAddress adapter;
          (price, liquidity) =
            (case selectPool adapter meta of
               Some pool \<Rightarrow>
                 (let isToken0Stable =
                        (toLowerCase (t_address (pool_token0 pool)) = toLowerCase stableAddress);
                      targetToken = (if isToken0Stable then pool_token1 pool else pool_token0 pool);
                      price = computeSpotPrice pricing pool (t_address targetToken) stableAddress;
                      liquidity = computeLiquidityUSD pricing pool
                                    (if isToken0Stable then 1 else price)
                                    (if isToken0Stable then price else 1)
                  in (price, liquidity))
             | None \<Rightarrow> (1, 500000))
      in \<lparr> token = \<lparr> t_symbol = tm_symbol meta, t_name = tm_name meta,
                      t_address = tm_address meta, t_decimals = tm_decimals meta,
                      t_logoURI = tm_logoURI meta, t_chainId = None \<rparr>,
           priceUSD = price,
           liquidityUSD = liquidity,
           volumeUSD = liquidity * 0.15,
           marketCapUSD = price * 10000000 \<rparr>)"

definition entryFor ::
  "Pricing \<Rightarrow> SnapshotService \<Rightarrow> IChainAdapter \<Rightarrow> string \<Rightarrow> int \<Rightarrow> TokenMetadata \<Rightarrow> SnapshotEntry" where
  "entryFor pricing svc adapter chainKey now meta =
     (case cachedEntry svc now (cacheKey chainKey meta) of
        Some e \<Rightarrow> e
      | None \<Rightarrow> freshEntry pricing adapter meta)"

text \<open>
  \<^verbatim>\<open>this.cache.set(cacheKey, { timestamp: now, entry })\<close> for every token of the window
  that was not served from the cache. Every callback of \<^verbatim>\<open>Promise.all\<close> reads the cache
  before the first one writes it, so the reads are those of the service as it was.
\<close>

definition storeEntries ::
  "Pricing \<Rightarrow> SnapshotService \<Rightarrow> IChainAdapter \<Rightarrow> string \<Rightarrow> int \<Rightarrow> TokenMetadata list
     \<Rightarrow> (string \<rightharpoonup> CacheItem)" where
  "storeEntries pricing svc adapter chainKey now window =
     fold (\<lambda>meta c.
             case cachedEntry svc now (cacheKey chainKey meta) of
               Some e \<Rightarrow> c
             | None \<Rightarrow> c(cacheKey chainKey meta \<mapsto>
                          \<lparr> ci_timestamp = now, ci_entry = freshEntry pricing adapter meta \<rparr>))
          window (cache svc)"

definition generateSnapshot ::
  "Pricing \<Rightarrow> (string \<rightharpoonup> TokenMetadata list) \<Rightarrow> SnapshotService \<Rightarrow> int \<Rightarrow> string \<Rightarrow> int \<Rightarrow> int
     \<Rightarrow> snapshot_error + (ChainSnapshot \<times> SnapshotService)" where
  "generateSnapshot pricing SUPPORTED_TOKENS svc now chainName offset limit =
     (let chainKey = toLowerCase chainName in
      case adapters svc chainKey of
        None \<Rightarrow> Inl (NoAdapter chainName)
      | Some adapter \<Rightarrow>
          (let window = windowedMetadata SUPPORTED_TOKENS svc chainKey offset limit
           in Inr (\<lparr> timestamp = now,
                     chain = getChainName adapter,
                     entries = map (entryFor pricing svc adapter chainKey now) window \<rparr>,
                   svc\<lparr> cache := storeEntries pricing svc adapter chainKey now window \<rparr>)))"

subsection \<open>The snapshot endpoint (\<^verbatim>\<open>registerRoutes\<close>, server/routes.ts)\<close>

datatype response_body = SnapshotBody ChainSnapshot | MessageBody string

record Response =
  status :: int
  body :: response_body

text \<open>
  \<^verbatim>\<open>parseInt(req.query.offset) || 0\<close> and \<^verbatim>\<open>parseInt(req.query.limit) || 25\<close>.
\<close>

definition requestOffset :: "string option \<Rightarrow> int" where
  "requestOffset q = or_default (parseInt q) 0"

definition requestLimit :: "string option \<Rightarrow> int" where
  "requestLimit q = or_default (parseInt q) 25"

text \<open>
  The handler of \<^verbatim>\<open>GET /api/snapshots/:chain\<close>. \<^verbatim>\<open>res.json\<close> answers with status 200;
  the error whose message contains \<^verbatim>\<open>No adapter\<close> gives 404, any other error 500.
\<close>

definition getLatest ::
  "Pricing \<Rightarrow> (string \<rightharpoonup> TokenMetadata list) \<Rightarrow> SnapshotService \<Rightarrow> int \<Rightarrow> string
     \<Rightarrow> string option \<Rightarrow> string option \<Rightarrow> Response \<times> SnapshotService" where
  "getLatest pricing SUPPORTED_TOKENS svc now chainParam offsetQ limitQ =
     (let offset = requestOffset offsetQ;
          limit = requestLimit limitQ
      in case generateSnapshot pricing SUPPORTED_TOKENS svc now chainParam offset limit of
           Inr (snapshot, svc') \<Rightarrow> (\<lparr> status = 200, body = SnapshotBody snapshot \<rparr>, svc')
         | Inl (NoAdapter c) \<Rightarrow> (\<lparr> status = 404, body = MessageBody ''Chain not supported'' \<rparr>, svc)
         | Inl InternalError \<Rightarrow> (\<lparr> status = 500, body = MessageBody ''Internal server error'' \<rparr>, svc))"

text \<open>The entries of a response that carries a snapshot.\<close>

definition response_entries :: "Response \<Rightarrow> SnapshotEntry list option" where
  "response_entries r = (case body r of SnapshotBody s \<Rightarrow> Some (entries s) | MessageBody m \<Rightarrow> None)"

section \<open>Pool scheduler (\<^verbatim>\<open>PoolScheduler.executeForChain\<close>)\<close>

datatype Tier = High | Normal | Low

record AlivePool =
  ap_address :: string
  ap_chainId :: int
  tier :: Tier
  nextRefresh :: int
  lastBlockSeen :: int
  lastPrice :: real
  requestCount :: int
  lastRequestTime :: int

record MulticallData =
  sqrtPriceX96 :: nat
  liquidity :: nat

record MulticallResult =
  mr_poolAddress :: string
  success :: bool
  data :: "MulticallData option"
  blockNumber :: int

text \<open>The two counters of a tick: results skipped as block-unchanged, and prices recomputed.\<close>

record TickStats =
  blockAwareSavings :: nat
  computationsPerformed :: nat

datatype scheduler_error = MulticallFailed

text \<open>
  \<^verbatim>\<open>Array.prototype.find\<close> returns a reference to an object of the alive set; the model
  keeps the alive set as a list and a reference as the position of the object in it.
\<close>

fun findIndex :: "('a \<Rightarrow> bool) \<Rightarrow> 'a list \<Rightarrow> nat option" where
  "findIndex P [] = None"
| "findIndex P (x # xs) = (if P x then Some 0 else map_option Suc (findIndex P xs))"

text \<open>
  \<^verbatim>\<open>Math.sqrt(Number(result.data.sqrtPriceX96) / 2 ** 96)\<close>, over the reals.
\<close>

definition priceOfSqrt :: "nat \<Rightarrow> real" where
  "priceOfSqrt x = sqrt (real x / 2 ^ 96)"

text \<open>
  The body of \<^verbatim>\<open>for (const result of multicallResults)\<close>.
  \<^verbatim>\<open>poolController.updatePoolTier\<close> belongs to the pool controller, which is not part of
  the sources at hand: it is a parameter, a function on the alive set that is given the
  pool address, the new price and the time.
\<close>

definition processResult ::
  "(string \<Rightarrow> real \<Rightarrow> int \<Rightarrow> AlivePool list \<Rightarrow> AlivePool list) \<Rightarrow> int
     \<Rightarrow> MulticallResult \<Rightarrow> AlivePool list \<times> TickStats \<Rightarrow> AlivePool list \<times> TickStats" where
  "processResult updatePoolTier now result st =
     (let (alive, stats) = st in
      if success result \<and> data result \<noteq> None then
        (let pool = findIndex (\<lambda>p. ap_address p = mr_poolAddress result) alive in
         if (case pool of None \<Rightarrow> False | Some i \<Rightarrow> blockNumber result = lastBlockSeen (alive ! i))
            \<and> blockNumber result \<noteq> 0
         then (alive, stats\<lparr> blockAwareSavings := blockAwareSavings stats + 1 \<rparr>)
         else
           (let stats' = stats\<lparr> computationsPerformed := computationsPerformed stats + 1 \<rparr> in
            case pool of
              None \<Rightarrow> (alive, stats')
            | Some i \<Rightarrow>
                (let price = priceOfSqrt (case data result of Some d \<Rightarrow> sqrtPriceX96 d | None \<Rightarrow> 0);
                     alive' = updatePoolTier (mr_poolAddress result) price now alive
                 in (alive'[i := (alive' ! i)\<lparr> lastBlockSeen := blockNumber result,
                                                lastPrice := price \<rparr>],
                     stats'))))
      else (alive, stats))"

text \<open>The \<^verbatim>\<open>catch\<close> block: \<^verbatim>\<open>pool.nextRefresh = Date.now() + 5000\<close> for every pool due.\<close>

definition scheduleRetry :: "int \<Rightarrow> nat list \<Rightarrow> AlivePool list \<Rightarrow> AlivePool list" where
  "scheduleRetry now poolsDue alive =
     fold (\<lambda>i a. a[i := (a ! i)\<lparr> nextRefresh := now + 5000 \<rparr>]) poolsDue alive"

text \<open>
  \<^verbatim>\<open>executeForChain\<close>. The pools due are references into the alive set; the outcome of
  \<^verbatim>\<open>multicallEngine.executeBatches\<close> (the engine is not part of the sources at hand) is
  an input: the list of results, or the exception it threw. The function returns the
  alive set and, when the results were processed, the counters.
\<close>

definition executeForChain ::
  "(string \<Rightarrow> real \<Rightarrow> int \<Rightarrow> AlivePool list \<Rightarrow> AlivePool list) \<Rightarrow> int \<Rightarrow> nat list
     \<Rightarrow> scheduler_error + MulticallResult list \<Rightarrow> AlivePool list
     \<Rightarrow> AlivePool list \<times> TickStats option" where
  "executeForChain updatePoolTier now poolsDue multicall alive =
     (if poolsDue = [] then (alive, None)
      else case multicall of
             Inr multicallResults \<Rightarrow>
               (let (alive', stats) =
                      fold (processResult updatePoolTier now) multicallResults
                        (alive, \<lparr> blockAwareSavings = 0, computationsPerformed = 0 \<rparr>)
                in (alive', Some stats))
           | Inl err \<Rightarrow> (scheduleRetry now poolsDue alive, None))"

text \<open>
  Modelled from the spec: the refresh interval of a tier (5 s, 10 s, 30 s). The pool
  controller that holds the intervals is not part of the sources at hand.
\<close>

definition tierInterval :: "Tier \<Rightarrow> int" where
  "tierInterval t = (case t of High \<Rightarrow> 5000 | Normal \<Rightarrow> 10000 | Low \<Rightarrow> 30000)"

section \<open>Token discovery (server/application/services/TokenDiscoveryManager.ts)\<close>

subsection \<open>Registry\<close>

datatype DexType = V2 | V3

record PoolMetadata =
  pm_address :: string
  dexType :: DexType
  pm_token0 :: string
  pm_token1 :: string
  feeTier :: "int option"
  weight :: int

record PricingRoute =
  route_pool :: string
  route_base :: string

record PoolRegistry =
  pools :: "string \<rightharpoonup> PoolMetadata"
  pricingRoutes :: "string \<rightharpoonup> PricingRoute list"

record PoolState =
  ps_token0 :: string
  ps_token1 :: string

text \<open>\<^verbatim>\<open>fee ? "v3" : "v2"\<close>: \<^verbatim>\<open>undefined\<close> and \<open>0\<close> are falsy.\<close>

definition fee_truthy :: "int option \<Rightarrow> bool" where
  "fee_truthy fee = (case fee of None \<Rightarrow> False | Some n \<Rightarrow> n \<noteq> 0)"

text \<open>\<^verbatim>\<open>if (!routes[key]) routes[key] = []\<close> and \<^verbatim>\<open>routes[key].push(route)\<close>.\<close>

definition ensureRoutes :: "(string \<rightharpoonup> PricingRoute list) \<Rightarrow> string \<Rightarrow> (string \<rightharpoonup> PricingRoute list)" where
  "ensureRoutes routes key = (case routes key of None \<Rightarrow> routes(key \<mapsto> []) | Some rs \<Rightarrow> routes)"

definition pushRoute ::
  "(string \<rightharpoonup> PricingRoute list) \<Rightarrow> string \<Rightarrow> PricingRoute \<Rightarrow> (string \<rightharpoonup> PricingRoute list)" where
  "pushRoute routes key route =
     (case routes key of None \<Rightarrow> routes | Some rs \<Rightarrow> routes(key \<mapsto> rs @ [route]))"

definition addPoolToRegistry ::
  "PoolRegistry \<Rightarrow> string \<Rightarrow> PoolState \<Rightarrow> int option \<Rightarrow> PoolRegistry" where
  "addPoolToRegistry registry poolAddress poolState fee =
     (let token0 = ps_token0 poolState;
          token1 = ps_token1 poolState;
          dexType = (if fee_truthy fee then V3 else V2);
          weight = (if dexType = V3 then 2 else 1);
          poolMetadata = \<lparr> pm_address = poolAddress, dexType = dexType, pm_token0 = token0,
                           pm_token1 = token1, feeTier = fee, weight = weight \<rparr>;
          pools' = (pools registry)(poolAddress \<mapsto> poolMetadata);
          token0Lower = toLowerCase token0;
          token1Lower = toLowerCase token1;
          routes1 = ensureRoutes (pricingRoutes registry) token0Lower;
          routes2 = ensureRoutes routes1 token1Lower;
          routes3 = pushRoute routes2 token0Lower \<lparr> route_pool = poolAddress, route_base = token1 \<rparr>;
          routes4 = pushRoute routes3 token1Lower \<lparr> route_pool = poolAddress, route_base = token0 \<rparr>
      in \<lparr> pools = pools', pricingRoutes = routes4 \<rparr>)"

subsection \<open>\<^verbatim>\<open>TokenDiscoveryManager.discoverPoolsForTokens\<close>\<close>

record DiscoveryAttempt =
  tokenAddress :: string
  da_chainId :: int
  attemptedAt :: int
  poolsFound :: nat
  succeeded :: bool

definition DISCOVERY_RETRY_WINDOW :: int where
  "DISCOVERY_RETRY_WINDOW = 5 * 60 * 1000"

definition FEE_TIERS :: "int list" where
  "FEE_TIERS = [100, 500, 3000, 10000]"

definition BASE_TOKENS :: "int \<Rightarrow> string list" where
  "BASE_TOKENS chainId =
     (if chainId = 1 then
        [''0xa0b86991c6218b36c1d19d4a2e9eb0ce3606eb48'',
         ''0xdac17f958d2ee523a2206206994597c13d831ec7'',
         ''0x6b175474e89094c44da98b954eedeac495271d0f'',
         ''0xc02aaa39b223fe8d0a0e5c4f27ead9083c756cc2'']
      else if chainId = 137 then
        [''0x2791bca1f2de4661ed88a30c99a7a9449aa84174'',
         ''0xc2132d05d31c914a87c6611c10748aeb04b58e8f'',
         ''0x8f3cf7ad23cd3cadbd9735aff958023d60d76ee6'',
         ''0x7ceb23fd6bc0add59e62ac25578270cff1b9f619'',
         ''0x0d500b1d8e8ef31e21c99d1db9a6444d3adf1270'']
      else [])"

text \<open>The decimal text of an integral number, as a template literal prints it.\<close>

fun digits_of_nat :: "nat \<Rightarrow> string" where
  "digits_of_nat n =
     (if n < 10 then [''0123456789'' ! n]
      else digits_of_nat (n div 10) @ [''0123456789'' ! (n mod 10)])"

definition number_toString :: "int \<Rightarrow> string" where
  "number_toString i = (if i < 0 then CHR ''-'' # digits_of_nat (nat (- i)) else digits_of_nat (nat i))"

text \<open>\<^verbatim>\<open>`${token.address.toLowerCase()}-${chainId}`\<close>\<close>

definition attemptKey :: "Token \<Rightarrow> int \<Rightarrow> string" where
  "attemptKey tok chainId = toLowerCase (t_address tok) @ ''-'' @ number_toString chainId"

text \<open>
  The two calls of the adapter that discovery makes. Each returns a value or throws;
  \<^verbatim>\<open>getPoolAddress\<close> may return \<^verbatim>\<open>null\<close>.
\<close>

datatype adapter_error = RPCError

record DiscoveryAdapter =
  getPoolAddress :: "Token \<Rightarrow> Token \<Rightarrow> int \<Rightarrow> int \<Rightarrow> adapter_error + string option"
  getPoolState :: "string \<Rightarrow> int \<Rightarrow> adapter_error + PoolState"

text \<open>
  The state of one run of \<^verbatim>\<open>discoverPoolsForTokens\<close>: the registry loaded at the start,
  the attempts of the manager, the clock that \<^verbatim>\<open>Date.now()\<close> reads, the counter of
  the batch, and a log of the probes made (the arguments of every call of
  \<^verbatim>\<open>getPoolAddress\<close>: token address, base token, fee).
\<close>

record DiscoveryRun =
  registry :: PoolRegistry
  attempts :: "string \<rightharpoonup> DiscoveryAttempt"
  clock :: int
  probes :: "(string \<times> string \<times> int) list"
  poolsDiscoveredThisBatch :: nat

text \<open>\<^verbatim>\<open>await new Promise(resolve => setTimeout(resolve, 100))\<close>\<close>

definition sleep100 :: "DiscoveryRun \<Rightarrow> DiscoveryRun" where
  "sleep100 run = run\<lparr> clock := clock run + 100 \<rparr>"

text \<open>
  The body of the loop over the fee tiers, for one base token and one fee. The second
  component of the state is \<^verbatim>\<open>poolsFoundForToken\<close>. An exception of the adapter leaves
  the \<^verbatim>\<open>try\<close> block, so neither the insertion nor the pause happens.
\<close>

definition tryPool ::
  "DiscoveryAdapter \<Rightarrow> Token \<Rightarrow> int \<Rightarrow> string \<Rightarrow> int \<Rightarrow> DiscoveryRun \<times> nat \<Rightarrow> DiscoveryRun \<times> nat" where
  "tryPool adapter tok chainId baseToken fee st =
     (let (run, poolsFoundForToken) = st;
          tokenAFull = \<lparr> t_symbol = t_symbol tok,
                         t_name = (if t_name tok = [] then t_symbol tok else t_name tok),
                         t_address = t_address tok, t_decimals = t_decimals tok,
                         t_logoURI = None, t_chainId = Some chainId \<rparr>;
          tokenBFull = \<lparr> t_symbol = ''BASE'', t_name = ''BASE'', t_address = baseToken,
                         t_decimals = 18, t_logoURI = None, t_chainId = Some chainId \<rparr>;
          run1 = run\<lparr> probes := probes run @ [(t_address tok, baseToken, fee)] \<rparr>
      in case getPoolAddress adapter tokenAFull tokenBFull chainId fee of
           Inl err \<Rightarrow> (run1, poolsFoundForToken)
         | Inr None \<Rightarrow> (sleep100 run1, poolsFoundForToken)
         | Inr (Some poolAddress) \<Rightarrow>
             if poolAddress = [] then (sleep100 run1, poolsFoundForToken)
             else (case getPoolState adapter poolAddress chainId of
                     Inl err \<Rightarrow> (run1, poolsFoundForToken)
                   | Inr poolState \<Rightarrow>
                       (sleep100
                          (run1\<lparr> registry := addPoolToRegistry (registry run1) poolAddress poolState (Some fee),
                                 poolsDiscoveredThisBatch := poolsDiscoveredThisBatch run1 + 1 \<rparr>),
                        poolsFoundForToken + 1)))"

text \<open>
  \<^verbatim>\<open>lastAttempt && (Date.now() - lastAttempt.attemptedAt) < this.DISCOVERY_RETRY_WINDOW\<close>
\<close>

definition recentlyAttempted :: "DiscoveryRun \<Rightarrow> string \<Rightarrow> bool" where
  "recentlyAttempted run key =
     (case attempts run key of
        None \<Rightarrow> False
      | Some lastAttempt \<Rightarrow> clock run - attemptedAt lastAttempt < DISCOVERY_RETRY_WINDOW)"

text \<open>The body of \<^verbatim>\<open>for (const token of tokens)\<close>.\<close>

definition discoverToken :: "DiscoveryAdapter \<Rightarrow> int \<Rightarrow> Token \<Rightarrow> DiscoveryRun \<Rightarrow> DiscoveryRun" where
  "discoverToken adapter chainId tok run =
     (if recentlyAttempted run (attemptKey tok chainId) then run
      else
        (let (run', poolsFoundForToken) =
               fold (\<lambda>baseToken st. fold (tryPool adapter tok chainId baseToken) FEE_TIERS st)
                 (BASE_TOKENS chainId) (run, 0)
         in run'\<lparr> attempts := (attempts run')(attemptKey tok chainId \<mapsto>
                     \<lparr> tokenAddress = t_address tok, da_chainId = chainId,
                       attemptedAt = clock run', poolsFound = poolsFoundForToken,
                       succeeded = (0 < poolsFoundForToken) \<rparr>) \<rparr>))"

text \<open>
  Modelled from the spec: the storage service, which is not part of the sources at hand.
  Its \<^verbatim>\<open>getPoolRegistry\<close> returns the registry persisted for the chain (an empty
  registry if absent) and \<^verbatim>\<open>savePoolRegistry\<close> replaces it: the field \<open>storage\<close> holds
  one registry per chain. The other fields are the attempts that the manager has
  recorded, the clock and the log of probes.
\<close>

record DiscoveryManager =
  storage :: "int \<Rightarrow> PoolRegistry"
  discoveryAttempts :: "string \<rightharpoonup> DiscoveryAttempt"
  dm_clock :: int
  probeLog :: "(string \<times> string \<times> int) list"

definition startRun :: "DiscoveryManager \<Rightarrow> int \<Rightarrow> DiscoveryRun" where
  "startRun mgr chainId =
     \<lparr> registry = storage mgr chainId, attempts = discoveryAttempts mgr, clock = dm_clock mgr,
       probes = probeLog mgr, poolsDiscoveredThisBatch = 0 \<rparr>"

definition discoverPoolsForTokens ::
  "DiscoveryAdapter \<Rightarrow> Token list \<Rightarrow> int \<Rightarrow> DiscoveryManager \<Rightarrow> nat \<times> DiscoveryManager" where
  "discoverPoolsForTokens adapter tokens chainId mgr =
     (let run = fold (discoverToken adapter chainId) tokens (startRun mgr chainId)
      in (poolsDiscoveredThisBatch run,
          \<lparr> storage = (storage mgr)(chainId := registry run),
            discoveryAttempts = attempts run,
            dm_clock = clock run,
            probeLog = probes run \<rparr>))"

section \<open>The pool selection rule of the specification\<close>

text \<open>
  The specification selects, among the pools that price a token, the one of highest
  weight, and among those of equal weight the one of lowest lower-case address. The
  weight of a pool is 2 when it has a fee tier (a v3 pool) and 1 otherwise. This
  definition follows the words of the specification, to be compared with
  \<open>selectPool\<close>, which follows the code.
\<close>

fun string_less :: "string \<Rightarrow> string \<Rightarrow> bool" where
  "string_less [] [] = False"
| "string_less [] (y # ys) = True"
| "string_less (x # xs) [] = False"
| "string_less (x # xs) (y # ys) =
     ((of_char x :: nat) < of_char y \<or> (x = y \<and> string_less xs ys))"

definition spec_weight :: "Pool \<Rightarrow> int" where
  "spec_weight p = (if fee_truthy (pool_feeTier p) then 2 else 1)"

definition spec_better :: "Pool \<Rightarrow> Pool \<Rightarrow> bool" where
  "spec_better p q =
     (spec_weight q < spec_weight p
      \<or> (spec_weight p = spec_weight q
          \<and> string_less (toLowerCase (pool_address p)) (toLowerCase (pool_address q))))"

definition spec_selectPool :: "Pool list \<Rightarrow> TokenMetadata \<Rightarrow> Pool option" where
  "spec_selectPool ps meta =
     (case filter (pool_has_token meta) ps of
        [] \<Rightarrow> None
      | c # cs \<Rightarrow> Some (fold (\<lambda>q best. if spec_better q best then q else best) cs c))"

section \<open>Predicates on the registry\<close>

text \<open>
  Predicates on a registry: every route of every token names a pool of the registry, and
  a token has a given route.
\<close>

definition routes_resolved :: "PoolRegistry \<Rightarrow> bool" where
  "routes_resolved r =
     (\<forall>key routes route.
        pricingRoutes r key = Some routes \<longrightarrow> route \<in> set routes
          \<longrightarrow> route_pool route \<in> dom (pools r))"

definition has_route :: "PoolRegistry \<Rightarrow> string \<Rightarrow> PricingRoute \<Rightarrow> bool" where
  "has_route r key route =
     (case pricingRoutes r key of None \<Rightarrow> False | Some routes \<Rightarrow> route \<in> set routes)"

text \<open>The metadata of a pool found by discovery, as the claim describes it.\<close>

definition discovered_v3 :: "PoolMetadata \<Rightarrow> bool" where
  "discovered_v3 m =
     (dexType m = V3 \<and> feeTier m \<in> {Some 100, Some 500, Some 3000, Some 10000} \<and> weight m = 2)"

definition empty_registry :: PoolRegistry where
  "empty_registry = \<lparr> pools = Map.empty, pricingRoutes = Map.empty \<rparr>"

section \<open>Concrete inputs\<close>

definition ex_meta :: "string \<Rightarrow> TokenMetadata" where
  "ex_meta a = \<lparr> tm_address = a, tm_symbol = ''TKN'', tm_name = ''Token'', tm_decimals = 18,
                 tm_logoURI = None \<rparr>"

definition ex_token :: "string \<Rightarrow> Token" where
  "ex_token a = \<lparr> t_symbol = ''TKN'', t_name = ''Token'', t_address = a, t_decimals = 18,
                  t_logoURI = None, t_chainId = None \<rparr>"

definition ex_pool :: "string \<Rightarrow> string \<Rightarrow> string \<Rightarrow> int \<Rightarrow> int option \<Rightarrow> Pool" where
  "ex_pool a t0 t1 r fee =
     \<lparr> pool_address = a, pool_token0 = ex_token t0, pool_token1 = ex_token t1,
       reserve0 = r, reserve1 = r, pool_feeTier = fee \<rparr>"

text \<open>A v2 pool and a v3 pool of the same pair; the v3 pool has the lower address.\<close>

definition ex_v2_pool :: Pool where
  "ex_v2_pool = ex_pool ''0xP2'' ''0xWETH'' ''0xUSDC'' 10 None"

definition ex_v3_pool :: Pool where
  "ex_v3_pool = ex_pool ''0xP1'' ''0xUSDC'' ''0xweth'' 20 (Some 3000)"

text \<open>A pool of another pair.\<close>

definition ex_other_pool :: Pool where
  "ex_other_pool = ex_pool ''0xP0'' ''0xDAI'' ''0xUSDC'' 5 (Some 500)"

definition ex_adapter :: "Pool list \<Rightarrow> IChainAdapter" where
  "ex_adapter ps = \<lparr> getChainName = ''ethereum'', getTopPools = (\<lambda>limit. ps),
                     getStableTokenAddress = ''0xUSDC'' \<rparr>"

definition ex_service :: "Pool list \<Rightarrow> TokenMetadata list \<Rightarrow> SnapshotService" where
  "ex_service ps dyn =
     \<lparr> adapters = [''ethereum'' \<mapsto> ex_adapter ps], cache = Map.empty,
       dynamicTokens = [''ethereum'' \<mapsto> dyn] \<rparr>"

definition ex_supported :: "string \<rightharpoonup> TokenMetadata list" where
  "ex_supported = [''ethereum'' \<mapsto> [ex_meta ''0xUSDC'', ex_meta ''0xWETH'']]"

text \<open>A stand-in for the pricing functions: it tells the pools apart by their reserves.\<close>

definition ex_pricing :: Pricing where
  "ex_pricing = \<lparr> computeSpotPrice = (\<lambda>p target quote. real_of_int (reserve0 p)),
                   computeLiquidityUSD = (\<lambda>p price0 price1. price0 + price1) \<rparr>"

text \<open>An alive pool that is due, and two results for it.\<close>

definition ex_alive_pool :: AlivePool where
  "ex_alive_pool =
     \<lparr> ap_address = ''0xPOOL'', ap_chainId = 1, tier = Normal, nextRefresh = 1000,
       lastBlockSeen = 7, lastPrice = 3 / 2, requestCount = 0, lastRequestTime = 0 \<rparr>"

definition ex_result_same_block :: MulticallResult where
  "ex_result_same_block =
     \<lparr> mr_poolAddress = ''0xPOOL'', success = True,
       data = Some \<lparr> sqrtPriceX96 = 4, liquidity = 5 \<rparr>, blockNumber = 7 \<rparr>"

definition ex_result_failed :: MulticallResult where
  "ex_result_failed =
     \<lparr> mr_poolAddress = ''0xPOOL'', success = False, data = None, blockNumber = 0 \<rparr>"

text \<open>
  A token to discover, and an adapter that knows one pool of it: the pool with the first
  base token of chain 1 at fee 3000. At fee 100 the adapter throws.
\<close>

definition ex_disc_token :: Token where
  "ex_disc_token = ex_token ''0xT0KEN''"

definition ex_pool_state :: PoolState where
  "ex_pool_state = \<lparr> ps_token0 = ''0xA0b8'', ps_token1 = ''0xT0KEN'' \<rparr>"

definition ex_disc_adapter :: DiscoveryAdapter where
  "ex_disc_adapter =
     \<lparr> getPoolAddress = (\<lambda>tokenA tokenB chainId fee.
          if fee = 100 then Inl RPCError
          else if t_address tokenB = ''0xa0b86991c6218b36c1d19d4a2e9eb0ce3606eb48'' \<and> fee = 3000
               then Inr (Some ''0xP00L'')
          else Inr None),
       getPoolState = (\<lambda>poolAddress chainId. Inr ex_pool_state) \<rparr>"

text \<open>The registry after the insertion of that pool, and the state of a second pool.\<close>

definition ex_registry :: PoolRegistry where
  "ex_registry = addPoolToRegistry empty_registry ''0xP00L'' ex_pool_state (Some 3000)"

definition ex_pool_state2 :: PoolState where
  "ex_pool_state2 = \<lparr> ps_token0 = ''0xDAc1'', ps_token1 = ''0xT0KEN'' \<rparr>"

definition ex_manager :: DiscoveryManager where
  "ex_manager =
     \<lparr> storage = (\<lambda>chainId. empty_registry), discoveryAttempts = Map.empty,
       dm_clock = 1000000, probeLog = [] \<rparr>"

text \<open>The manager 60 s after an attempt for the token that found nothing.\<close>

definition ex_manager_attempted :: DiscoveryManager where
  "ex_manager_attempted =
     \<lparr> storage = (\<lambda>chainId. empty_registry),
       discoveryAttempts =
         [''0xt0ken-1'' \<mapsto> \<lparr> tokenAddress = ''0xT0KEN'', da_chainId = 1, attemptedAt = 1000000,
                               poolsFound = 0, succeeded = False \<rparr>],
       dm_clock = 1060000, probeLog = [] \<rparr>"

section \<open>Evaluation of concrete inputs\<close>

lemmas js_eval = toLowerCase_def lower_char_def js_slice_def parseInt_def is_js_space_def
  digit_value_def or_default_def

lemmas ex_defs = ex_meta_def ex_token_def ex_pool_def ex_v2_pool_def ex_v3_pool_def
  ex_other_pool_def ex_adapter_def ex_service_def ex_supported_def ex_pricing_def

section \<open>Properties of the snapshot service\<close>

subsection \<open>Windows\<close>

lemma js_slice_beyond: "int (length xs) \<le> start \<Longrightarrow> js_slice xs start fin = []"
  by (auto simp: js_slice_def Let_def)

lemma js_slice_same: "js_slice xs start start = []"
  by (simp add: js_slice_def Let_def)

lemma generateSnapshot_known_chain:
  assumes "adapters svc (toLowerCase chainName) = Some adapter"
  shows "generateSnapshot pricing SUPPORTED svc now chainName offset limit =
           Inr (\<lparr> timestamp = now, chain = getChainName adapter,
                   entries = map (entryFor pricing svc adapter (toLowerCase chainName) now)
                              (windowedMetadata SUPPORTED svc (toLowerCase chainName) offset limit) \<rparr>,
                svc\<lparr> cache := storeEntries pricing svc adapter (toLowerCase chainName) now
                                 (windowedMetadata SUPPORTED svc (toLowerCase chainName) offset limit) \<rparr>)"
  using assms by (simp add: generateSnapshot_def Let_def)

lemma ex_service_adapter:
  "adapters (ex_service ps dyn) (toLowerCase ''ethereum'') = Some (ex_adapter ps)"
  by (simp add: ex_service_def js_eval)

lemma ex_window:
  "windowedMetadata ex_supported (ex_service ps []) (toLowerCase ''ethereum'') 1 1 = [ex_meta ''0xWETH'']"
  by (simp add: windowedMetadata_def mergedTokens_def allMetadata_def ex_supported_def
      ex_service_def js_eval)

lemma ex_cache_miss: "cachedEntry (ex_service ps dyn) now key = None"
  by (simp add: cachedEntry_def ex_service_def)

subsection \<open>Selection of the pricing pool\<close>

lemma selectPool_first_match:
  assumes "getTopPools adapter 100 = before @ p # rest"
      and "\<forall>q \<in> set before. \<not> pool_has_token meta q"
      and "pool_has_token meta p"
  shows "selectPool adapter meta = Some p"
proof -
  have "find (pool_has_token meta) (before @ p # rest) = Some p"
    using assms(2,3) by (induction before) auto
  then show ?thesis by (simp add: selectPool_def assms(1))
qed

text \<open>
  Claim C1, as the code has it. The service does not consult a registry and no weight:
  for a token of the window that is not served from the cache, it takes the first pool
  in the order of the adapter's \<^verbatim>\<open>getTopPools(100)\<close> that has the token as token0 or token1
  (compared in lower case), and computes \<open>priceUSD\<close> and \<open>liquidityUSD\<close> from that
  pool with the pricing functions.
\<close>

theorem snapshot_prices_from_first_matching_pool:
  assumes adapter: "adapters svc (toLowerCase chainName) = Some adapter"
      and window: "i < length (windowedMetadata SUPPORTED svc (toLowerCase chainName) offset limit)"
      and meta: "meta = windowedMetadata SUPPORTED svc (toLowerCase chainName) offset limit ! i"
      and miss: "cachedEntry svc now (cacheKey (toLowerCase chainName) meta) = None"
      and pools: "getTopPools adapter 100 = before @ p # rest"
      and before: "\<forall>q \<in> set before. \<not> pool_has_token meta q"
      and match: "pool_has_token meta p"
  shows "\<exists>snapshot svc'.
           generateSnapshot pricing SUPPORTED svc now chainName offset limit = Inr (snapshot, svc')
           \<and> (let e = entries snapshot ! i;
                   stable = getStableTokenAddress adapter;
                   isToken0Stable = (toLowerCase (t_address (pool_token0 p)) = toLowerCase stable)
               in priceUSD e =
                    computeSpotPrice pricing p
                      (t_address (if isToken0Stable then pool_token1 p else pool_token0 p)) stable
                  \<and> liquidityUSD e =
                      computeLiquidityUSD pricing p (if isToken0Stable then 1 else priceUSD e)
                        (if isToken0Stable then priceUSD e else 1))"
proof -
  have sel: "selectPool adapter meta = Some p"
    using pools before match by (rule selectPool_first_match)
  have e: "entryFor pricing svc adapter (toLowerCase chainName) now meta = freshEntry pricing adapter meta"
    using miss by (simp add: entryFor_def)
  show ?thesis
    unfolding generateSnapshot_known_chain [OF adapter]
    using window meta e sel
    by (simp add: freshEntry_def Let_def)
qed

text \<open>
  The theorem at a request for the window \<open>[1, 2)\<close> of the two static tokens, where the
  adapter lists a pool of another pair, then the v2 pool, then the v3 pool: the price of
  WETH is the one of the v2 pool.
\<close>

theorem snapshot_prices_from_first_matching_pool_witness:
  "getTopPools (ex_adapter [ex_other_pool, ex_v2_pool, ex_v3_pool]) 100
     = [ex_other_pool] @ ex_v2_pool # [ex_v3_pool]
   \<and> \<not> pool_has_token (ex_meta ''0xWETH'') ex_other_pool
   \<and> pool_has_token (ex_meta ''0xWETH'') ex_v2_pool
   \<and> (\<exists>snapshot svc'.
         generateSnapshot ex_pricing ex_supported
           (ex_service [ex_other_pool, ex_v2_pool, ex_v3_pool] []) 1000 ''ethereum'' 1 1
           = Inr (snapshot, svc')
         \<and> priceUSD (entries snapshot ! 0) = 10
         \<and> liquidityUSD (entries snapshot ! 0) = 11)"
proof -
  let ?svc = "ex_service [ex_other_pool, ex_v2_pool, ex_v3_pool] []"
  let ?ad = "ex_adapter [ex_other_pool, ex_v2_pool, ex_v3_pool]"
  have h1: "adapters ?svc (toLowerCase ''ethereum'') = Some ?ad"
    by (rule ex_service_adapter)
  have h2: "0 < length (windowedMetadata ex_supported ?svc (toLowerCase ''ethereum'') 1 1)"
    by (simp add: ex_window)
  have h3: "ex_meta ''0xWETH'' = windowedMetadata ex_supported ?svc (toLowerCase ''ethereum'') 1 1 ! 0"
    by (simp add: ex_window)
  have h4: "cachedEntry ?svc 1000 (cacheKey (toLowerCase ''ethereum'') (ex_meta ''0xWETH'')) = None"
    by (rule ex_cache_miss)
  have h5: "getTopPools ?ad 100 = [ex_other_pool] @ ex_v2_pool # [ex_v3_pool]"
    by (simp add: ex_adapter_def)
  have other: "\<not> pool_has_token (ex_meta ''0xWETH'') ex_other_pool"
    by (simp add: pool_has_token_def ex_defs js_eval)
  then have h6: "\<forall>q \<in> set [ex_other_pool]. \<not> pool_has_token (ex_meta ''0xWETH'') q"
    by simp
  have h7: "pool_has_token (ex_meta ''0xWETH'') ex_v2_pool"
    by (simp add: pool_has_token_def ex_defs js_eval)
  from snapshot_prices_from_first_matching_pool [OF h1 h2 h3 h4 h5 h6 h7, of ex_pricing]
  obtain snapshot svc' where
    "generateSnapshot ex_pricing ex_supported ?svc 1000 ''ethereum'' 1 1 = Inr (snapshot, svc')"
    "priceUSD (entries snapshot ! 0) = 10" "liquidityUSD (entries snapshot ! 0) = 11"
    by (auto simp: Let_def ex_defs js_eval)
  with h5 other h7 show ?thesis by blast
qed

text \<open>
  The claim as stated fails: with the v2 pool (weight 1) listed before the v3 pool
  (weight 2, and the lower address) of the same pair, the rule of the specification
  selects the v3 pool, and the service selects the v2 pool and reports its price.
\<close>

theorem selection_ignores_weight_counterexample:
  "spec_selectPool (getTopPools (ex_adapter [ex_v2_pool, ex_v3_pool]) 100) (ex_meta ''0xWETH'')
     = Some ex_v3_pool
   \<and> selectPool (ex_adapter [ex_v2_pool, ex_v3_pool]) (ex_meta ''0xWETH'') = Some ex_v2_pool
   \<and> ex_v2_pool \<noteq> ex_v3_pool
   \<and> spec_weight ex_v2_pool < spec_weight ex_v3_pool
   \<and> priceUSD (freshEntry ex_pricing (ex_adapter [ex_v2_pool, ex_v3_pool]) (ex_meta ''0xWETH''))
       = computeSpotPrice ex_pricing ex_v2_pool ''0xWETH'' ''0xUSDC''
   \<and> computeSpotPrice ex_pricing ex_v2_pool ''0xWETH'' ''0xUSDC''
       \<noteq> computeSpotPrice ex_pricing ex_v3_pool ''0xweth'' ''0xUSDC''"
  by (simp add: spec_selectPool_def spec_better_def spec_weight_def fee_truthy_def selectPool_def
      freshEntry_def pool_has_token_def ex_defs js_eval Let_def)

subsection \<open>The synthetic entry\<close>

text \<open>
  Claim C4. For a token of the window that is not served from the cache and for which
  \<^verbatim>\<open>pools.find\<close> returns no pool, the entry of the snapshot has \<open>priceUSD = 1\<close> and
  \<open>liquidityUSD = 500000\<close>, carries the token of the window, and the snapshot has one
  entry for every token of the window.
\<close>

theorem synthetic_entry_when_no_pool:
  assumes adapter: "adapters svc (toLowerCase chainName) = Some adapter"
      and window: "i < length (windowedMetadata SUPPORTED svc (toLowerCase chainName) offset limit)"
      and meta: "meta = windowedMetadata SUPPORTED svc (toLowerCase chainName) offset limit ! i"
      and miss: "cachedEntry svc now (cacheKey (toLowerCase chainName) meta) = None"
      and nopool: "selectPool adapter meta = None"
  shows "\<exists>snapshot svc'.
           generateSnapshot pricing SUPPORTED svc now chainName offset limit = Inr (snapshot, svc')
           \<and> length (entries snapshot)
               = length (windowedMetadata SUPPORTED svc (toLowerCase chainName) offset limit)
           \<and> priceUSD (entries snapshot ! i) = 1
           \<and> liquidityUSD (entries snapshot ! i) = 500000
           \<and> t_address (token (entries snapshot ! i)) = tm_address meta
           \<and> t_symbol (token (entries snapshot ! i)) = tm_symbol meta
           \<and> t_name (token (entries snapshot ! i)) = tm_name meta
           \<and> t_decimals (token (entries snapshot ! i)) = tm_decimals meta"
proof -
  have e: "entryFor pricing svc adapter (toLowerCase chainName) now meta = freshEntry pricing adapter meta"
    using miss by (simp add: entryFor_def)
  show ?thesis
    unfolding generateSnapshot_known_chain [OF adapter]
    using window meta e nopool
    by (simp add: freshEntry_def Let_def)
qed

text \<open>The theorem at a cold start: the adapter lists no pool, as the mock adapter does.\<close>

theorem synthetic_entry_when_no_pool_witness:
  "selectPool (ex_adapter []) (ex_meta ''0xWETH'') = None
   \<and> (\<exists>snapshot svc'.
         generateSnapshot ex_pricing ex_supported (ex_service [] []) 1000 ''ethereum'' 1 1
           = Inr (snapshot, svc')
         \<and> length (entries snapshot) = 1
         \<and> priceUSD (entries snapshot ! 0) = 1
         \<and> liquidityUSD (entries snapshot ! 0) = 500000
         \<and> t_address (token (entries snapshot ! 0)) = ''0xWETH'')"
proof -
  let ?svc = "ex_service [] []"
  have h1: "adapters ?svc (toLowerCase ''ethereum'') = Some (ex_adapter [])"
    by (rule ex_service_adapter)
  have h2: "0 < length (windowedMetadata ex_supported ?svc (toLowerCase ''ethereum'') 1 1)"
    by (simp add: ex_window)
  have h3: "ex_meta ''0xWETH'' = windowedMetadata ex_supported ?svc (toLowerCase ''ethereum'') 1 1 ! 0"
    by (simp add: ex_window)
  have h4: "cachedEntry ?svc 1000 (cacheKey (toLowerCase ''ethereum'') (ex_meta ''0xWETH'')) = None"
    by (rule ex_cache_miss)
  have h5: "selectPool (ex_adapter []) (ex_meta ''0xWETH'') = None"
    by (simp add: selectPool_def ex_adapter_def)
  from synthetic_entry_when_no_pool [OF h1 h2 h3 h4 h5, of ex_pricing]
  obtain snapshot svc' where
    "generateSnapshot ex_pricing ex_supported ?svc 1000 ''ethereum'' 1 1 = Inr (snapshot, svc')"
    "length (entries snapshot) = 1"
    "priceUSD (entries snapshot ! 0) = 1" "liquidityUSD (entries snapshot ! 0) = 500000"
    "t_address (token (entries snapshot ! 0)) = ''0xWETH''"
    by (auto simp: ex_window ex_meta_def)
  with h5 show ?thesis by blast
qed


subsection \<open>The merged token list\<close>

lemma allMetadata_static_prefix: "take (length staticMeta) (allMetadata staticMeta dynamicMeta) = staticMeta"
  by (simp add: allMetadata_def)

lemma allMetadata_distinct:
  assumes "distinct (map (\<lambda>t. toLowerCase (tm_address t)) staticMeta)"
      and "distinct (map (\<lambda>t. toLowerCase (tm_address t)) dynamicMeta)"
  shows "distinct (map (\<lambda>t. toLowerCase (tm_address t)) (allMetadata staticMeta dynamicMeta))"
proof -
  let ?low = "\<lambda>t. toLowerCase (tm_address t)"
  have "set (map ?low staticMeta)
          \<inter> set (map ?low (filter (\<lambda>t. ?low t \<notin> set (map ?low staticMeta)) dynamicMeta)) = {}"
    by (auto simp: image_iff)
  moreover have "distinct (map ?low (filter (\<lambda>t. ?low t \<notin> set (map ?low staticMeta)) dynamicMeta))"
    using assms(2) by (rule distinct_map_filter)
  ultimately show ?thesis
    using assms(1) unfolding allMetadata_def Let_def map_append distinct_append by blast
qed

text \<open>
  Claim C9 at a dynamic list that names one address twice, in two spellings: both entries
  stay in the merged list, which then has two entries of the same lower-case address.
  The filter only removes the dynamic entries whose address is in the static list.
\<close>

theorem merged_list_keeps_dynamic_duplicates:
  "mergedTokens ex_supported (ex_service [] [ex_meta ''0xAb'', ex_meta ''0xaB'']) ''ethereum''
     = [ex_meta ''0xUSDC'', ex_meta ''0xWETH'', ex_meta ''0xAb'', ex_meta ''0xaB'']
   \<and> \<not> distinct (map (\<lambda>t. toLowerCase (tm_address t))
          (mergedTokens ex_supported (ex_service [] [ex_meta ''0xAb'', ex_meta ''0xaB''])
             ''ethereum''))"
  by (simp add: mergedTokens_def allMetadata_def ex_supported_def ex_service_def ex_meta_def js_eval)

subsection \<open>Request parameters\<close>

lemma js_slice_length:
  assumes "0 \<le> offset" and "0 \<le> limit"
  shows "length (js_slice xs offset (offset + limit)) = min (nat limit) (length xs - nat offset)"
  using assms by (auto simp: js_slice_def Let_def min_def)

text \<open>
  Claim C7, as the code has it. A missing offset gives 0 and a missing limit gives 25.
  The handler has no upper bound for the limit: a limit that \<^verbatim>\<open>parseInt\<close> reads as a
  number \<open>n\<close> other than zero is the limit of the request, and for a positive \<open>n\<close> the
  window from offset 0 has \<open>n\<close> tokens whenever the merged list has as many.
\<close>

theorem request_defaults_and_uncapped_limit:
  assumes "parseInt q = Some n" and "n \<noteq> 0"
  shows "requestOffset None = 0 \<and> requestLimit None = 25 \<and> requestLimit q = n
         \<and> (0 < n \<longrightarrow>
              length (windowedMetadata SUPPORTED svc chainKey (requestOffset None) (requestLimit q))
                = min (nat n) (length (mergedTokens SUPPORTED svc chainKey)))"
proof -
  have lim: "requestLimit q = n"
    using assms by (simp add: requestLimit_def or_default_def)
  have off: "requestOffset None = 0"
    by (simp add: requestOffset_def or_default_def parseInt_def)
  have "requestLimit None = 25"
    by (simp add: requestLimit_def or_default_def parseInt_def)
  moreover have "0 < n \<Longrightarrow>
      length (windowedMetadata SUPPORTED svc chainKey (requestOffset None) (requestLimit q))
        = min (nat n) (length (mergedTokens SUPPORTED svc chainKey))"
    using js_slice_length [of 0 n "mergedTokens SUPPORTED svc chainKey"]
    by (simp add: windowedMetadata_def lim off)
  ultimately show ?thesis using lim off by simp
qed

text \<open>The theorem at \<^verbatim>\<open>limit=1000\<close>.\<close>

theorem request_defaults_and_uncapped_limit_witness:
  "parseInt (Some ''1000'') = Some 1000
   \<and> requestOffset None = 0 \<and> requestLimit None = 25 \<and> requestLimit (Some ''1000'') = 1000
   \<and> length (windowedMetadata ex_supported (ex_service [] []) ''ethereum'' (requestOffset None)
               (requestLimit (Some ''1000'')))
       = min (nat 1000) (length (mergedTokens ex_supported (ex_service [] []) ''ethereum''))"
proof -
  have h: "parseInt (Some ''1000'') = Some 1000"
    by (simp add: js_eval)
  show ?thesis
    using h request_defaults_and_uncapped_limit
            [OF h, of ex_supported "ex_service [] []" "''ethereum''"]
    by fastforce
qed

text \<open>The claim as stated fails: \<^verbatim>\<open>limit=1000\<close> gives the limit 1000, above 100.\<close>

theorem limit_above_100_counterexample:
  "\<not> requestLimit (Some ''1000'') \<le> 100"
  by (simp add: requestLimit_def js_eval)

subsection \<open>Boundaries of the window\<close>

lemma offset_beyond_end_gives_no_entries:
  assumes "adapters svc (toLowerCase chainParam) = Some adapter"
      and "int (length (mergedTokens SUPPORTED svc (toLowerCase chainParam))) \<le> requestOffset offsetQ"
  shows "fst (getLatest pricing SUPPORTED svc now chainParam offsetQ limitQ)
           = \<lparr> status = 200,
                body = SnapshotBody \<lparr> timestamp = now, chain = getChainName adapter, entries = [] \<rparr> \<rparr>"
  using assms
  by (simp add: getLatest_def generateSnapshot_known_chain windowedMetadata_def js_slice_beyond)

lemma generateSnapshot_limit_zero:
  assumes "adapters svc (toLowerCase chainName) = Some adapter"
  shows "\<exists>svc'. generateSnapshot pricing SUPPORTED svc now chainName offset 0
           = Inr (\<lparr> timestamp = now, chain = getChainName adapter, entries = [] \<rparr>, svc')"
  using assms
  by (simp add: generateSnapshot_known_chain windowedMetadata_def js_slice_same)

text \<open>
  Claim C8 at the request \<^verbatim>\<open>GET /api/snapshots/ethereum?limit=0\<close>, with two static tokens:
  \<^verbatim>\<open>parseInt("0") || 25\<close> is 25, so the response has status 200 and both entries, not
  an empty list.
\<close>

theorem limit_zero_request_returns_entries:
  "requestLimit (Some ''0'') = 25
   \<and> status (fst (getLatest ex_pricing ex_supported (ex_service [] []) 1000 ''ethereum'' None
                     (Some ''0''))) = 200
   \<and> map_option (map (\<lambda>e. t_address (token e)))
        (response_entries
           (fst (getLatest ex_pricing ex_supported (ex_service [] []) 1000 ''ethereum'' None
                   (Some ''0''))))
       = Some [''0xUSDC'', ''0xWETH'']"
  by (simp add: getLatest_def generateSnapshot_def requestLimit_def requestOffset_def
      response_entries_def windowedMetadata_def mergedTokens_def allMetadata_def entryFor_def
      cachedEntry_def freshEntry_def selectPool_def ex_defs js_eval Let_def)


section \<open>Properties of the pool scheduler\<close>

lemmas sched_ex_defs = ex_alive_pool_def ex_result_same_block_def ex_result_failed_def

subsection \<open>One result\<close>

lemma processResult_block_unchanged:
  assumes "success result" and "data result \<noteq> None"
      and "findIndex (\<lambda>p. ap_address p = mr_poolAddress result) alive = Some i"
      and "blockNumber result = lastBlockSeen (alive ! i)" and "blockNumber result \<noteq> 0"
  shows "processResult updatePoolTier now result (alive, stats)
           = (alive, stats\<lparr> blockAwareSavings := blockAwareSavings stats + 1 \<rparr>)"
  using assms by (simp add: processResult_def)

lemma processResult_failed:
  assumes "\<not> success result"
  shows "processResult updatePoolTier now result (alive, stats) = (alive, stats)"
  using assms by (simp add: processResult_def)

subsection \<open>An exception of the multicall\<close>

lemma scheduleRetry_length: "length (scheduleRetry now poolsDue alive) = length alive"
  unfolding scheduleRetry_def by (induction poolsDue arbitrary: alive) simp_all

lemma scheduleRetry_tier: "map tier (scheduleRetry now poolsDue alive) = map tier alive"
  unfolding scheduleRetry_def
proof (induction poolsDue arbitrary: alive)
  case Nil
  then show ?case by simp
next
  case (Cons d ds)
  have "map tier (alive[d := (alive ! d)\<lparr> nextRefresh := now + 5000 \<rparr>]) = map tier alive"
    by (cases "d < length alive") (simp_all add: map_update list_update_same_conv list_update_beyond)
  with Cons.IH show ?case by simp
qed

lemma scheduleRetry_keeps_retry:
  assumes "i < length alive" and "nextRefresh (alive ! i) = now + 5000"
  shows "nextRefresh (scheduleRetry now poolsDue alive ! i) = now + 5000"
  using assms unfolding scheduleRetry_def
proof (induction poolsDue arbitrary: alive)
  case Nil
  then show ?case by simp
next
  case (Cons d ds)
  let ?a = "alive[d := (alive ! d)\<lparr> nextRefresh := now + 5000 \<rparr>]"
  have "i < length ?a" using Cons.prems by simp
  moreover have "nextRefresh (?a ! i) = now + 5000"
    using Cons.prems by (cases "i = d") simp_all
  ultimately show ?case using Cons.IH [of ?a] by simp
qed

lemma scheduleRetry_sets_retry:
  assumes "i \<in> set poolsDue" and "i < length alive"
  shows "nextRefresh (scheduleRetry now poolsDue alive ! i) = now + 5000"
  using assms
proof (induction poolsDue arbitrary: alive)
  case Nil
  then show ?case by simp
next
  case (Cons d ds)
  let ?a = "alive[d := (alive ! d)\<lparr> nextRefresh := now + 5000 \<rparr>]"
  have step: "scheduleRetry now (d # ds) alive = scheduleRetry now ds ?a"
    by (simp add: scheduleRetry_def)
  show ?case
  proof (cases "i = d")
    case True
    then have "nextRefresh (?a ! i) = now + 5000" using Cons.prems by simp
    then show ?thesis
      using scheduleRetry_keeps_retry [of i ?a now ds] Cons.prems step by simp
  next
    case False
    then have "i \<in> set ds" using Cons.prems by simp
    then show ?thesis using Cons.IH [of ?a] Cons.prems step by simp
  qed
qed

lemma executeForChain_multicall_throws:
  assumes "i \<in> set poolsDue" and "i < length alive"
  shows "nextRefresh (fst (executeForChain updatePoolTier now poolsDue (Inl err) alive) ! i) = now + 5000
         \<and> map tier (fst (executeForChain updatePoolTier now poolsDue (Inl err) alive)) = map tier alive"
proof -
  have "poolsDue \<noteq> []" using assms(1) by auto
  then have "fst (executeForChain updatePoolTier now poolsDue (Inl err) alive)
               = scheduleRetry now poolsDue alive"
    by (simp add: executeForChain_def)
  then show ?thesis
    using assms by (simp add: scheduleRetry_sets_retry scheduleRetry_tier)
qed

subsection \<open>The tick at concrete results\<close>

text \<open>
  Claim C2 at a result of the block that the pool has seen (block 7, at time 2000, the
  pool due since 1000): the tick counts one saving and no computation and leaves the
  pool as it was. The tier and the last price are unchanged, as the claim says, but so
  is \<open>nextRefresh\<close>: it is not set to the time plus the interval of the tier.
\<close>

theorem block_skip_leaves_nextRefresh:
  "executeForChain updatePoolTier 2000 [0] (Inr [ex_result_same_block]) [ex_alive_pool]
     = ([ex_alive_pool], Some \<lparr> blockAwareSavings = 1, computationsPerformed = 0 \<rparr>)
   \<and> nextRefresh ex_alive_pool = 1000
   \<and> 2000 + tierInterval (tier ex_alive_pool) = 12000"
  by (simp add: executeForChain_def processResult_def tierInterval_def sched_ex_defs)

text \<open>
  Claim C3 at a failed result (at time 2000, the pool due since 1000): the tick leaves
  the pool as it was. The tier is unchanged, as the claim says, but \<open>nextRefresh\<close>
  stays 1000: it is not set to \<open>2000 + 5000\<close>.
\<close>

theorem failed_result_schedules_no_retry:
  "executeForChain updatePoolTier 2000 [0] (Inr [ex_result_failed]) [ex_alive_pool]
     = ([ex_alive_pool], Some \<lparr> blockAwareSavings = 0, computationsPerformed = 0 \<rparr>)
   \<and> nextRefresh ex_alive_pool = 1000"
  by (simp add: executeForChain_def processResult_def sched_ex_defs)


section \<open>Properties of token discovery\<close>

lemmas disc_ex_defs = ex_disc_token_def ex_pool_state_def ex_disc_adapter_def empty_registry_def
  ex_manager_def ex_manager_attempted_def ex_token_def

subsection \<open>The retry window\<close>

lemma discoverToken_recently_attempted:
  assumes "recentlyAttempted run (attemptKey tok chainId)"
  shows "discoverToken adapter chainId tok run = run"
  using assms by (simp add: discoverToken_def)

lemma discover_all_recently_attempted:
  assumes "\<forall>tok \<in> set tokens. recentlyAttempted run (attemptKey tok chainId)"
  shows "fold (discoverToken adapter chainId) tokens run = run"
  using assms by (induction tokens) (simp_all add: discoverToken_recently_attempted)

text \<open>
  Claim C5. When every token of a call has a recorded attempt that is less than the
  retry window (5 minutes) old, whatever the attempt found, the call returns 0 and leaves
  the manager as it was: no probe is added to the log, the recorded attempts (with their
  \<open>attemptedAt\<close>) are the same, and the registry of every chain is the same.
\<close>

theorem discovery_within_retry_window_is_noop:
  assumes "\<And>tok. tok \<in> set tokens \<Longrightarrow>
             \<exists>lastAttempt. discoveryAttempts mgr (attemptKey tok chainId) = Some lastAttempt
                \<and> dm_clock mgr - attemptedAt lastAttempt < 5 * 60 * 1000"
  shows "discoverPoolsForTokens adapter tokens chainId mgr = (0, mgr)"
proof -
  have "\<forall>tok \<in> set tokens. recentlyAttempted (startRun mgr chainId) (attemptKey tok chainId)"
  proof
    fix tok assume "tok \<in> set tokens"
    from assms [OF this] show "recentlyAttempted (startRun mgr chainId) (attemptKey tok chainId)"
      by (auto simp: recentlyAttempted_def startRun_def DISCOVERY_RETRY_WINDOW_def)
  qed
  then have "fold (discoverToken adapter chainId) tokens (startRun mgr chainId) = startRun mgr chainId"
    by (rule discover_all_recently_attempted)
  then show ?thesis
    by (simp add: discoverPoolsForTokens_def startRun_def)
qed

text \<open>The theorem at a second call, 60 s after an attempt that found nothing.\<close>

theorem discovery_within_retry_window_is_noop_witness:
  "discoveryAttempts ex_manager_attempted (attemptKey ex_disc_token 1)
     = Some \<lparr> tokenAddress = ''0xT0KEN'', da_chainId = 1, attemptedAt = 1000000,
              poolsFound = 0, succeeded = False \<rparr>
   \<and> dm_clock ex_manager_attempted - 1000000 < (5 * 60 * 1000 :: int)
   \<and> discoverPoolsForTokens ex_disc_adapter [ex_disc_token] 1 ex_manager_attempted
       = (0, ex_manager_attempted)"
proof -
  have key: "attemptKey ex_disc_token 1 = ''0xt0ken-1''"
    by (simp add: attemptKey_def number_toString_def disc_ex_defs js_eval)
  have h: "discoveryAttempts ex_manager_attempted (attemptKey ex_disc_token 1)
             = Some \<lparr> tokenAddress = ''0xT0KEN'', da_chainId = 1, attemptedAt = 1000000,
                      poolsFound = 0, succeeded = False \<rparr>"
    unfolding key by (simp add: ex_manager_attempted_def)
  have w: "dm_clock ex_manager_attempted - 1000000 < (5 * 60 * 1000 :: int)"
    by (simp add: ex_manager_attempted_def)
  have "discoverPoolsForTokens ex_disc_adapter [ex_disc_token] 1 ex_manager_attempted
          = (0, ex_manager_attempted)"
  proof (rule discovery_within_retry_window_is_noop)
    fix tok assume "tok \<in> set [ex_disc_token]"
    then have "tok = ex_disc_token" by simp
    with h w show "\<exists>lastAttempt.
        discoveryAttempts ex_manager_attempted (attemptKey tok 1) = Some lastAttempt
        \<and> dm_clock ex_manager_attempted - attemptedAt lastAttempt < 5 * 60 * 1000"
      by simp
  qed
  with h w show ?thesis by simp
qed

subsection \<open>Insertion into the registry\<close>

lemma addPoolToRegistry_pools:
  "pools (addPoolToRegistry reg poolAddress poolState fee)
     = (pools reg)(poolAddress \<mapsto>
         \<lparr> pm_address = poolAddress, dexType = (if fee_truthy fee then V3 else V2),
           pm_token0 = ps_token0 poolState, pm_token1 = ps_token1 poolState, feeTier = fee,
           weight = (if fee_truthy fee then 2 else 1) \<rparr>)"
  by (simp add: addPoolToRegistry_def Let_def)

lemma ensureRoutes_lookup:
  "ensureRoutes routes key k = (if k = key \<and> routes key = None then Some [] else routes k)"
  by (simp add: ensureRoutes_def split: option.splits)

lemma pushRoute_lookup:
  "pushRoute routes key route k
     = (if k = key then map_option (\<lambda>rs. rs @ [route]) (routes key) else routes k)"
  by (simp add: pushRoute_def split: option.splits)

lemma addPoolToRegistry_route_origin:
  assumes "pricingRoutes (addPoolToRegistry reg poolAddress poolState fee) key = Some routes"
      and "route \<in> set routes"
  shows "route_pool route = poolAddress
         \<or> (\<exists>old. pricingRoutes reg key = Some old \<and> route \<in> set old)"
  using assms
  by (auto simp: addPoolToRegistry_def Let_def pushRoute_lookup ensureRoutes_lookup
      split: if_splits option.splits)

lemma addPoolToRegistry_has_routes:
  "has_route (addPoolToRegistry reg poolAddress poolState fee) (toLowerCase (ps_token0 poolState))
     \<lparr> route_pool = poolAddress, route_base = ps_token1 poolState \<rparr>"
  "has_route (addPoolToRegistry reg poolAddress poolState fee) (toLowerCase (ps_token1 poolState))
     \<lparr> route_pool = poolAddress, route_base = ps_token0 poolState \<rparr>"
  by (auto simp: has_route_def addPoolToRegistry_def Let_def pushRoute_lookup ensureRoutes_lookup
      split: if_splits option.splits)

lemma addPoolToRegistry_routes_resolved:
  assumes "routes_resolved reg"
  shows "routes_resolved (addPoolToRegistry reg poolAddress poolState fee)"
  unfolding routes_resolved_def
proof (intro allI impI)
  fix key routes route
  assume "pricingRoutes (addPoolToRegistry reg poolAddress poolState fee) key = Some routes"
     and "route \<in> set routes"
  then have "route_pool route = poolAddress
             \<or> (\<exists>old. pricingRoutes reg key = Some old \<and> route \<in> set old)"
    by (rule addPoolToRegistry_route_origin)
  then show "route_pool route \<in> dom (pools (addPoolToRegistry reg poolAddress poolState fee))"
  proof
    assume "route_pool route = poolAddress"
    then show ?thesis by (simp add: addPoolToRegistry_pools)
  next
    assume "\<exists>old. pricingRoutes reg key = Some old \<and> route \<in> set old"
    then have "route_pool route \<in> dom (pools reg)"
      using assms by (auto simp: routes_resolved_def)
    then show ?thesis by (auto simp: addPoolToRegistry_pools)
  qed
qed

text \<open>
  Claim C6. A registry in which every route names a pool of the registry keeps that
  property after \<open>addPoolToRegistry\<close>, the insertion that discovery performs; the inserted
  pool is a key of \<open>pools\<close>, and the lower-case addresses of its two tokens each have a
  route through it whose base is the other token.
\<close>

theorem insertion_keeps_routes_resolved:
  assumes "routes_resolved reg"
  shows "routes_resolved (addPoolToRegistry reg poolAddress poolState fee)
         \<and> poolAddress \<in> dom (pools (addPoolToRegistry reg poolAddress poolState fee))
         \<and> has_route (addPoolToRegistry reg poolAddress poolState fee)
             (toLowerCase (ps_token0 poolState))
             \<lparr> route_pool = poolAddress, route_base = ps_token1 poolState \<rparr>
         \<and> has_route (addPoolToRegistry reg poolAddress poolState fee)
             (toLowerCase (ps_token1 poolState))
             \<lparr> route_pool = poolAddress, route_base = ps_token0 poolState \<rparr>"
  using assms
  by (simp add: addPoolToRegistry_routes_resolved addPoolToRegistry_has_routes
      addPoolToRegistry_pools)

lemma empty_registry_resolved: "routes_resolved empty_registry"
  by (simp add: routes_resolved_def empty_registry_def)

text \<open>
  The theorem at the insertion of a second pool of the token, into the registry that
  holds the first one.
\<close>

theorem insertion_keeps_routes_resolved_witness:
  "routes_resolved ex_registry
   \<and> routes_resolved (addPoolToRegistry ex_registry ''0xP11L'' ex_pool_state2 (Some 500))
   \<and> dom (pools (addPoolToRegistry ex_registry ''0xP11L'' ex_pool_state2 (Some 500)))
       = {''0xP00L'', ''0xP11L''}
   \<and> pricingRoutes (addPoolToRegistry ex_registry ''0xP11L'' ex_pool_state2 (Some 500)) ''0xt0ken''
       = Some [\<lparr> route_pool = ''0xP00L'', route_base = ''0xA0b8'' \<rparr>,
               \<lparr> route_pool = ''0xP11L'', route_base = ''0xDAc1'' \<rparr>]
   \<and> has_route (addPoolToRegistry ex_registry ''0xP11L'' ex_pool_state2 (Some 500))
       (toLowerCase ''0xDAc1'') \<lparr> route_pool = ''0xP11L'', route_base = ''0xT0KEN'' \<rparr>"
proof -
  have inv: "routes_resolved ex_registry"
    unfolding ex_registry_def
    by (rule addPoolToRegistry_routes_resolved [OF empty_registry_resolved])
  have keys: "dom (pools (addPoolToRegistry ex_registry ''0xP11L'' ex_pool_state2 (Some 500)))
                = {''0xP00L'', ''0xP11L''}"
    by (auto simp: addPoolToRegistry_pools ex_registry_def empty_registry_def)
  have routes: "pricingRoutes (addPoolToRegistry ex_registry ''0xP11L'' ex_pool_state2 (Some 500))
          ''0xt0ken'' = Some [\<lparr> route_pool = ''0xP00L'', route_base = ''0xA0b8'' \<rparr>,
                              \<lparr> route_pool = ''0xP11L'', route_base = ''0xDAc1'' \<rparr>]"
    by (simp add: addPoolToRegistry_def Let_def pushRoute_lookup ensureRoutes_lookup
        ex_registry_def empty_registry_def ex_pool_state_def ex_pool_state2_def js_eval)
  from insertion_keeps_routes_resolved [OF inv, of "''0xP11L''" ex_pool_state2 "Some 500"]
  show ?thesis
    using inv keys routes by (simp add: ex_pool_state2_def)
qed

subsection \<open>Invariants of a run of discovery\<close>

lemma fold_invariant:
  assumes "\<And>x s. x \<in> set xs \<Longrightarrow> I s \<Longrightarrow> I (f x s)" and "I s"
  shows "I (fold f xs s)"
  using assms by (induction xs arbitrary: s) simp_all

lemma tryPool_registry_cases:
  "registry (fst (tryPool adapter tok chainId baseToken fee st)) = registry (fst st)
   \<or> (\<exists>poolAddress poolState.
         registry (fst (tryPool adapter tok chainId baseToken fee st))
           = addPoolToRegistry (registry (fst st)) poolAddress poolState (Some fee))"
  by (auto simp: tryPool_def sleep100_def Let_def split: prod.splits sum.splits option.splits)

lemma tryPool_probes:
  "probes (fst (tryPool adapter tok chainId baseToken fee st))
     = probes (fst st) @ [(t_address tok, baseToken, fee)]"
  by (auto simp: tryPool_def sleep100_def Let_def split: prod.splits sum.splits option.splits)

lemma discoverToken_invariant:
  assumes tp: "\<And>baseToken fee st. fee \<in> set FEE_TIERS \<Longrightarrow> I (fst st)
                 \<Longrightarrow> I (fst (tryPool adapter tok chainId baseToken fee st))"
      and att: "\<And>run f. I run \<Longrightarrow> I (run\<lparr> attempts := f \<rparr>)"
      and run: "I run"
  shows "I (discoverToken adapter chainId tok run)"
proof (cases "recentlyAttempted run (attemptKey tok chainId)")
  case True
  then show ?thesis using run by (simp add: discoverToken_def)
next
  case False
  let ?inner = "\<lambda>baseToken st. fold (tryPool adapter tok chainId baseToken) FEE_TIERS st"
  have fees: "I (fst (?inner baseToken st))" if "I (fst st)" for baseToken st
    using tp that by (rule_tac I = "\<lambda>s. I (fst s)" in fold_invariant) auto
  have "I (fst (fold ?inner (BASE_TOKENS chainId) (run, 0)))"
    using fees run by (rule_tac I = "\<lambda>s. I (fst s)" in fold_invariant) auto
  then show ?thesis
    using False att by (simp add: discoverToken_def case_prod_beta)
qed

lemma discovery_invariant:
  assumes tp: "\<And>tok baseToken fee st. fee \<in> set FEE_TIERS \<Longrightarrow> I (fst st)
                 \<Longrightarrow> I (fst (tryPool adapter tok chainId baseToken fee st))"
      and att: "\<And>run f. I run \<Longrightarrow> I (run\<lparr> attempts := f \<rparr>)"
      and run: "I run"
  shows "I (fold (discoverToken adapter chainId) tokens run)"
  using run
  by (rule_tac fold_invariant) (auto intro: discoverToken_invariant tp att)

lemma discovery_registry_invariant:
  assumes step: "\<And>r poolAddress poolState fee. fee \<in> set FEE_TIERS \<Longrightarrow> P r
                   \<Longrightarrow> P (addPoolToRegistry r poolAddress poolState (Some fee))"
      and start: "P (storage mgr chainId)"
  shows "P (storage (snd (discoverPoolsForTokens adapter tokens chainId mgr)) chainId)"
proof -
  have "P (registry (fold (discoverToken adapter chainId) tokens (startRun mgr chainId)))"
  proof (rule discovery_invariant [where I = "\<lambda>run. P (registry run)"])
    fix tok baseToken fee and st :: "DiscoveryRun \<times> nat"
    assume "fee \<in> set FEE_TIERS" and "P (registry (fst st))"
    then show "P (registry (fst (tryPool adapter tok chainId baseToken fee st)))"
      using tryPool_registry_cases [of adapter tok chainId baseToken fee st] step by auto
  next
    fix run :: DiscoveryRun and f
    assume "P (registry run)"
    then show "P (registry (run\<lparr> attempts := f \<rparr>))" by simp
  next
    show "P (registry (startRun mgr chainId))" using start by (simp add: startRun_def)
  qed
  then show ?thesis by (simp add: discoverPoolsForTokens_def Let_def)
qed

lemma discovery_keeps_routes_resolved:
  assumes "routes_resolved (storage mgr chainId)"
  shows "routes_resolved (storage (snd (discoverPoolsForTokens adapter tokens chainId mgr)) chainId)"
  using assms
  by (rule_tac discovery_registry_invariant) (auto intro: addPoolToRegistry_routes_resolved)

lemma discovery_probes:
  "\<exists>new. probeLog (snd (discoverPoolsForTokens adapter tokens chainId mgr)) = probeLog mgr @ new
         \<and> (\<forall>p \<in> set new. snd (snd p) \<in> set FEE_TIERS)"
proof -
  let ?I = "\<lambda>run. \<exists>new. probes run = probeLog mgr @ new \<and> (\<forall>p \<in> set new. snd (snd p) \<in> set FEE_TIERS)"
  have "?I (fold (discoverToken adapter chainId) tokens (startRun mgr chainId))"
  proof (rule discovery_invariant [where I = ?I])
    fix tok baseToken fee and st :: "DiscoveryRun \<times> nat"
    assume fee: "fee \<in> set FEE_TIERS" and "?I (fst st)"
    then obtain new where new: "probes (fst st) = probeLog mgr @ new"
        "\<forall>p \<in> set new. snd (snd p) \<in> set FEE_TIERS"
      by blast
    have "probes (fst (tryPool adapter tok chainId baseToken fee st))
            = probeLog mgr @ (new @ [(t_address tok, baseToken, fee)])"
      by (simp add: tryPool_probes new(1))
    moreover have "\<forall>p \<in> set (new @ [(t_address tok, baseToken, fee)]). snd (snd p) \<in> set FEE_TIERS"
      using new(2) fee by simp
    ultimately show "?I (fst (tryPool adapter tok chainId baseToken fee st))" by blast
  next
    fix run :: DiscoveryRun and f
    assume "?I run"
    then show "?I (run\<lparr> attempts := f \<rparr>)" by simp
  next
    show "?I (startRun mgr chainId)" by (simp add: startRun_def)
  qed
  then show ?thesis by (simp add: discoverPoolsForTokens_def Let_def)
qed

subsection \<open>The pools that discovery inserts\<close>

lemma fee_tier_truthy: "fee \<in> set FEE_TIERS \<Longrightarrow> fee_truthy (Some fee)"
  by (auto simp: FEE_TIERS_def fee_truthy_def)

lemma inserted_metadata_v3:
  assumes "fee \<in> set FEE_TIERS"
  shows "\<exists>m. pools (addPoolToRegistry reg poolAddress poolState (Some fee)) poolAddress = Some m
             \<and> discovered_v3 m \<and> feeTier m = Some fee"
  using assms fee_tier_truthy [OF assms]
  by (auto simp: addPoolToRegistry_pools discovered_v3_def FEE_TIERS_def)

text \<open>
  Claim C10. Every probe that a call of \<open>discoverPoolsForTokens\<close> makes carries one of
  the fees 100, 500, 3000, 10000, each of which is truthy, so that an insertion takes
  the v3 branch of \<open>addPoolToRegistry\<close>; and every pool of the registry after the call
  either is a pool that the registry held before, unchanged, or has \<open>dexType = V3\<close>, a fee
  tier among the four and weight 2.
\<close>

theorem discovered_pools_are_v3:
  assumes "discoverPoolsForTokens adapter tokens chainId mgr = (n, mgr')"
      and "pools (storage mgr' chainId) poolAddress = Some m"
  shows "(pools (storage mgr chainId) poolAddress = Some m \<or> discovered_v3 m)
         \<and> (\<exists>new. probeLog mgr' = probeLog mgr @ new
               \<and> (\<forall>p \<in> set new. snd (snd p) \<in> {100, 500, 3000, 10000}
                                  \<and> fee_truthy (Some (snd (snd p)))))"
proof -
  let ?P = "\<lambda>r :: PoolRegistry. \<forall>a m. pools r a = Some m \<longrightarrow> pools (storage mgr chainId) a = Some m \<or> discovered_v3 m"
  have mgr': "mgr' = snd (discoverPoolsForTokens adapter tokens chainId mgr)"
    using assms(1) by simp
  have "?P (storage (snd (discoverPoolsForTokens adapter tokens chainId mgr)) chainId)"
  proof (rule discovery_registry_invariant [where P = ?P])
    fix r poolAddress poolState fee
    assume fee: "fee \<in> set FEE_TIERS" and r: "?P r"
    from inserted_metadata_v3 [OF fee, of r poolAddress poolState]
    show "?P (addPoolToRegistry r poolAddress poolState (Some fee))"
      using r by (auto simp: addPoolToRegistry_pools)
  next
    show "?P (storage mgr chainId)" by simp
  qed
  then have first: "pools (storage mgr chainId) poolAddress = Some m \<or> discovered_v3 m"
    using assms(2) mgr' by blast
  from discovery_probes [of adapter tokens chainId mgr]
  obtain new where new: "probeLog mgr' = probeLog mgr @ new"
      "\<forall>p \<in> set new. snd (snd p) \<in> set FEE_TIERS"
    using mgr' by auto
  have "\<forall>p \<in> set new. snd (snd p) \<in> {100, 500, 3000, 10000} \<and> fee_truthy (Some (snd (snd p)))"
    using new(2) fee_tier_truthy by (auto simp: FEE_TIERS_def)
  with first new(1) show ?thesis by blast
qed

text \<open>
  A first call for one token on chain 1, from an empty registry: 16 probes, one pool
  found at fee 3000 and inserted, the attempt recorded at the time the probes ended.
\<close>

lemma ex_discovery_run:
  "discoverPoolsForTokens ex_disc_adapter [ex_disc_token] 1 ex_manager
     = (1, \<lparr> storage = (\<lambda>chainId. empty_registry)
                 (1 := addPoolToRegistry empty_registry ''0xP00L'' ex_pool_state (Some 3000)),
              discoveryAttempts =
                [''0xt0ken-1'' \<mapsto> \<lparr> tokenAddress = ''0xT0KEN'', da_chainId = 1,
                                      attemptedAt = 1001200, poolsFound = 1, succeeded = True \<rparr>],
              dm_clock = 1001200,
              probeLog = concat (map (\<lambda>b. map (\<lambda>f. (''0xT0KEN'', b, f)) FEE_TIERS) (BASE_TOKENS 1)) \<rparr>)"
  by (simp add: discoverPoolsForTokens_def startRun_def discoverToken_def recentlyAttempted_def
      tryPool_def sleep100_def FEE_TIERS_def BASE_TOKENS_def attemptKey_def number_toString_def
      ex_disc_token_def ex_token_def ex_disc_adapter_def ex_manager_def js_eval Let_def)

text \<open>
  The same call again, 60 s after the first one ended: it makes no probe and changes
  nothing, although the first attempt succeeded.
\<close>

lemma ex_second_call_probes_nothing:
  "discoverPoolsForTokens ex_disc_adapter [ex_disc_token] 1
     (snd (discoverPoolsForTokens ex_disc_adapter [ex_disc_token] 1 ex_manager)
        \<lparr> dm_clock := 1061200 \<rparr>)
     = (0, snd (discoverPoolsForTokens ex_disc_adapter [ex_disc_token] 1 ex_manager)
             \<lparr> dm_clock := 1061200 \<rparr>)"
  unfolding ex_discovery_run snd_conv
  by (simp add: discoverPoolsForTokens_def startRun_def discoverToken_def
      recentlyAttempted_def DISCOVERY_RETRY_WINDOW_def attemptKey_def number_toString_def
      ex_disc_token_def ex_token_def js_eval)

text \<open>The theorem at that call: the pool that the registry gained is a v3 pool.\<close>

theorem discovered_pools_are_v3_witness:
  "pools (storage (snd (discoverPoolsForTokens ex_disc_adapter [ex_disc_token] 1 ex_manager)) 1)
       ''0xP00L''
     = Some \<lparr> pm_address = ''0xP00L'', dexType = V3, pm_token0 = ''0xA0b8'',
              pm_token1 = ''0xT0KEN'', feeTier = Some 3000, weight = 2 \<rparr>
   \<and> pools (storage ex_manager 1) ''0xP00L'' = None
   \<and> discovered_v3 \<lparr> pm_address = ''0xP00L'', dexType = V3, pm_token0 = ''0xA0b8'',
                      pm_token1 = ''0xT0KEN'', feeTier = Some 3000, weight = 2 \<rparr>
   \<and> (\<exists>new. probeLog (snd (discoverPoolsForTokens ex_disc_adapter [ex_disc_token] 1 ex_manager))
               = probeLog ex_manager @ new
            \<and> length new = 16
            \<and> (\<forall>p \<in> set new. snd (snd p) \<in> {100, 500, 3000, 10000}
                               \<and> fee_truthy (Some (snd (snd p)))))"
proof -
  let ?M = "\<lparr> pm_address = ''0xP00L'', dexType = V3, pm_token0 = ''0xA0b8'',
              pm_token1 = ''0xT0KEN'', feeTier = Some 3000, weight = 2 \<rparr>"
  let ?D = "discoverPoolsForTokens ex_disc_adapter [ex_disc_token] 1 ex_manager"
  have m: "pools (storage (snd ?D) 1) ''0xP00L'' = Some ?M"
    by (simp add: ex_discovery_run addPoolToRegistry_pools fee_truthy_def ex_pool_state_def)
  have none: "pools (storage ex_manager 1) ''0xP00L'' = None"
    by (simp add: ex_manager_def empty_registry_def)
  have len: "length (probeLog (snd ?D)) = 16"
    by (simp add: ex_discovery_run FEE_TIERS_def BASE_TOKENS_def)
  have log: "probeLog ex_manager = []"
    by (simp add: ex_manager_def)
  from discovered_pools_are_v3 [OF surjective_pairing m]
  obtain new where v3: "discovered_v3 ?M"
      and new: "probeLog (snd ?D) = probeLog ex_manager @ new"
        "\<forall>p \<in> set new. snd (snd p) \<in> {100, 500, 3000, 10000} \<and> fee_truthy (Some (snd (snd p)))"
    using none by auto
  have "length new = 16" using new(1) len log by simp
  with m none v3 new show ?thesis by blast
qed


end
